theory Spec2Isabelle
  imports Main "HOL-Library.Sublist"
begin

section \<open>JavaScript string and array primitives used by dmm\<close>

text \<open>
  A JavaScript string is a sequence of code units; it is modelled as \<^typ>\<open>string\<close>
  (a \<^typ>\<open>char list\<close>), one \<^typ>\<open>char\<close> per code unit. Every primitive below works on
  positions of that sequence, as the JavaScript built-in does.
\<close>

text \<open>First and last position at which \<open>n\<close> occurs in a sequence, if any.\<close>

fun find_first :: "'a list \<Rightarrow> 'a list \<Rightarrow> nat option" where
  "find_first n [] = (if n = [] then Some 0 else None)"
| "find_first n (c # cs) =
     (if prefix n (c # cs) then Some 0 else map_option Suc (find_first n cs))"

fun find_last :: "'a list \<Rightarrow> 'a list \<Rightarrow> nat option" where
  "find_last n [] = (if n = [] then Some 0 else None)"
| "find_last n (c # cs) =
     (case find_last n cs of
        Some i \<Rightarrow> Some (Suc i)
      | None \<Rightarrow> if prefix n (c # cs) then Some 0 else None)"

text \<open>\<open>String.prototype.indexOf\<close> and \<open>lastIndexOf\<close>: the position, or \<open>-1\<close>.\<close>

definition indexOf :: "string \<Rightarrow> string \<Rightarrow> int" where
  "indexOf s n = (case find_first n s of None \<Rightarrow> - 1 | Some i \<Rightarrow> int i)"

definition lastIndexOf :: "string \<Rightarrow> string \<Rightarrow> int" where
  "lastIndexOf s n = (case find_last n s of None \<Rightarrow> - 1 | Some i \<Rightarrow> int i)"

text \<open>
  \<open>String.prototype.substring(a, b)\<close>: both indices are clamped to \<open>0 .. length\<close> and
  swapped when the first exceeds the second; it never throws.
\<close>

definition substring :: "string \<Rightarrow> int \<Rightarrow> int \<Rightarrow> string" where
  "substring s a b =
     (let n = int (length s);
          a' = min (max a 0) n;
          b' = min (max b 0) n;
          lo = min a' b';
          hi = max a' b'
      in take (nat (hi - lo)) (drop (nat lo) s))"

text \<open>
  \<open>String.prototype.split(sep)\<close> with a string separator. With the empty separator the
  string is cut into its code units.
\<close>

function split_js :: "'a list \<Rightarrow> 'a list \<Rightarrow> 'a list list" where
  "split_js s sep =
     (if sep = [] then map (\<lambda>c. [c]) s
      else case find_first sep s of
             None \<Rightarrow> [s]
           | Some i \<Rightarrow> take i s # split_js (drop (i + length sep) s) sep)"
  by pat_completeness auto

lemma find_first_bound:
  "find_first n s = Some i \<Longrightarrow> i + length n \<le> length s"
proof (induction s arbitrary: i)
  case Nil
  then show ?case by (simp split: if_splits)
next
  case (Cons c cs)
  show ?case
  proof (cases "prefix n (c # cs)")
    case True
    from prefix_length_le [OF True] Cons.prems True show ?thesis by simp
  next
    case False
    with Cons.prems obtain j where "find_first n cs = Some j" "i = Suc j"
      by auto
    with Cons.IH show ?thesis by simp
  qed
qed

termination split_js
proof (relation "measure (\<lambda>(s, sep). length s)")
  show "wf (measure (\<lambda>(s, sep). length s))" by simp
next
  fix s sep :: "'a list" and i
  assume "sep \<noteq> []" and "find_first sep s = Some i"
  then have "i + length sep \<le> length s" and "0 < length sep"
    by (simp_all add: find_first_bound)
  then have "length s - (i + length sep) < length s"
    by arith
  then show "((drop (i + length sep) s, sep), (s, sep)) \<in> measure (\<lambda>(s, sep). length s)"
    by simp
qed

declare split_js.simps [simp del]

text \<open>Array element access \<open>xs[i]\<close>: \<open>None\<close> stands for \<open>undefined\<close>.\<close>

definition element :: "'a list \<Rightarrow> nat \<Rightarrow> 'a option" where
  "element xs i = (if i < length xs then Some (xs ! i) else None)"

text \<open>\<open>Array.prototype.indexOf\<close> on an array of strings (strict equality).\<close>

fun array_indexOf :: "'a list \<Rightarrow> 'a \<Rightarrow> int" where
  "array_indexOf [] x = - 1"
| "array_indexOf (y # ys) x =
     (if y = x then 0
      else (let r = array_indexOf ys x in if r = - 1 then - 1 else r + 1))"

text \<open>
  \<open>GetSubstitution\<close> of ECMAScript for a string pattern (no capture groups): in the
  replacement text \<open>$$\<close> stands for a dollar sign, \<open>$&\<close> for the matched text,
  \<open>$`\<close> for the text before the match and \<open>$'\<close> for the text after it; every other
  character, a dollar sign followed by a digit included, is copied.
\<close>

fun getSubstitution :: "string \<Rightarrow> string \<Rightarrow> string \<Rightarrow> string \<Rightarrow> string" where
  "getSubstitution matched before after [] = []"
| "getSubstitution matched before after [c] = [c]"
| "getSubstitution matched before after (c # d # r) =
     (if c = CHR ''$'' \<and> d = CHR ''$'' then CHR ''$'' # getSubstitution matched before after r
      else if c = CHR ''$'' \<and> d = CHR ''&'' then matched @ getSubstitution matched before after r
      else if c = CHR ''$'' \<and> d = CHR 0x60 then before @ getSubstitution matched before after r
      else if c = CHR ''$'' \<and> d = CHR 0x27 then after @ getSubstitution matched before after r
      else c # getSubstitution matched before after (d # r))"

text \<open>
  \<open>String.prototype.replace(pattern, replacement)\<close> with a string pattern: only the
  first occurrence is replaced; a string without the pattern is returned as it is.
\<close>

definition replace_js :: "string \<Rightarrow> string \<Rightarrow> string \<Rightarrow> string" where
  "replace_js s pat rep =
     (case find_first pat s of
        None \<Rightarrow> s
      | Some i \<Rightarrow>
          take i s
          @ getSubstitution pat (take i s) (drop (i + length pat) s) rep
          @ drop (i + length pat) s)"

text \<open>String concatenation with a value that may be \<open>undefined\<close>.\<close>

definition toString :: "string option \<Rightarrow> string" where
  "toString v = (case v of None \<Rightarrow> ''undefined'' | Some s \<Rightarrow> s)"

section \<open>Module records and the manifest parser (src/dmm.ts)\<close>

text \<open>
  The interface \<open>Module\<close>. The optional fields \<open>repo\<close>, \<open>latestRelease\<close> and \<open>updated\<close>
  are absent (\<open>None\<close>) until a later step sets them.
\<close>

record Module =
  std :: bool
  name :: string
  version :: string
  url :: string
  repo :: "string option"
  latestRelease :: "string option"
  updated :: "bool option"

text \<open>
  The exception raised by a method call or a property access on \<open>undefined\<close>: in the
  parser when \<open>split(...)[1]\<close> does not exist, in the resolver when the database has no
  entry for a module.
\<close>

datatype error = TypeError

text \<open>The text every candidate line must contain, and the standard-library test.\<close>

definition marker :: string where
  \<open>marker = ''from "https://deno.land/''\<close>

definition std_of :: "string \<Rightarrow> bool" where
  "std_of dep = (indexOf dep ''https://deno.land/std'' \<ge> 0)"

definition url_of :: "string \<Rightarrow> string" where
  \<open>url_of dep = substring dep (lastIndexOf dep ''from "'' + 6) (lastIndexOf dep ''"'')\<close>

text \<open>
  \<open>split(...)[0]\<close>: with a non-empty separator \<open>split\<close> returns at least one piece
  (lemma \<open>split_js_not_Nil\<close> below), so the first piece always exists.
\<close>

definition first_piece :: "string list \<Rightarrow> string" where
  "first_piece xs = (case xs of [] \<Rightarrow> [] | x # _ \<Rightarrow> x)"

definition version_of :: "string \<Rightarrow> error + string" where
  "version_of dep =
     (if std_of dep = True
      then (case element (split_js dep ''/std@'') 1 of
              None \<Rightarrow> Inl TypeError
            | Some rest \<Rightarrow> Inr (first_piece (split_js rest ''/'')))
      else Inr (substring dep (lastIndexOf dep ''@'' + 1) (lastIndexOf dep ''/mod.ts'')))"

definition name_of :: "string \<Rightarrow> string \<Rightarrow> error + string" where
  "name_of dep v =
     (if std_of dep = True
      then (case element (split_js dep (''@'' @ v @ ''/'')) 1 of
              None \<Rightarrow> Inl TypeError
            | Some rest \<Rightarrow> Inr (first_piece (split_js rest ''/'')))
      else Inr (substring dep (lastIndexOf dep ''/x/'' + 3) (lastIndexOf dep ''@'')))"

text \<open>The record built from one candidate line, or the exception raised on the way.\<close>

definition parse_dep :: "string \<Rightarrow> error + Module" where
  "parse_dep dep =
     (case version_of dep of
        Inl e \<Rightarrow> Inl e
      | Inr v \<Rightarrow>
          (case name_of dep v of
             Inl e \<Rightarrow> Inl e
           | Inr n \<Rightarrow>
               Inr \<lparr>std = std_of dep, name = n, version = v, url = url_of dep,
                    repo = None, latestRelease = None, updated = None\<rparr>))"

text \<open>
  The body of \<open>listOfDeps.forEach\<close>: \<open>modules\<close> is the array built so far. An exception
  ends the loop and the function. Console output is not modelled here.
\<close>

fun collate :: "string list \<Rightarrow> string list \<Rightarrow> Module list \<Rightarrow> error + Module list" where
  "collate modulesForPurpose [] modules = Inr modules"
| "collate modulesForPurpose (dep # listOfDeps) modules =
     (if indexOf dep marker = - 1 then collate modulesForPurpose listOfDeps modules
      else case parse_dep dep of
             Inl e \<Rightarrow> Inl e
           | Inr m \<Rightarrow>
               if length modulesForPurpose \<noteq> 0 \<and> array_indexOf modulesForPurpose (name m) \<ge> 0
               then collate modulesForPurpose listOfDeps (modules @ [m])
               else if length modulesForPurpose = 0
               then collate modulesForPurpose listOfDeps (modules @ [m])
               else collate modulesForPurpose listOfDeps modules)"

text \<open>
  \<open>getModulesFromDepsFile\<close>, with the decoded content of \<open>deps.ts\<close> as an argument
  (the argument \<open>purpose\<close> is used for console output only).
\<close>

definition getModulesFromDepsFile :: "string list \<Rightarrow> string \<Rightarrow> error + Module list" where
  "getModulesFromDepsFile modulesForPurpose depsContent =
     collate modulesForPurpose
       (filter (\<lambda>dep. dep \<noteq> []) (split_js depsContent [CHR 0x0A])) []"


section \<open>Release resolution (src/dmm.ts)\<close>

text \<open>
  The two network requests are parameters: \<open>denoDatabase\<close> holds the own properties of
  the object parsed from \<open>database.json\<close> (module name to an entry, an object whose
  properties \<open>owner\<close> and \<open>repo\<close> may be absent), and \<open>fetch_url\<close> gives, for a requested
  URL, the URL of the response after redirects. \<open>denoStdLatestVersion\<close> is the constant
  imported from \<open>deps.ts\<close>.
\<close>

text \<open>
  The property names every object inherits from \<open>Object.prototype\<close>. For such a name
  that is not an own property, \<open>denoDatabase[name]\<close> is the inherited value, on which
  \<open>owner\<close> and \<open>repo\<close> are \<open>undefined\<close>; for any other name that is not an own property
  it is \<open>undefined\<close>, and reading \<open>owner\<close> from it raises.
\<close>

definition object_prototype_names :: "string list" where
  "object_prototype_names =
     [''constructor'', ''__defineGetter__'', ''__defineSetter__'', ''hasOwnProperty'',
      ''__lookupGetter__'', ''__lookupSetter__'', ''isPrototypeOf'',
      ''propertyIsEnumerable'', ''toString'', ''valueOf'', ''__proto__'',
      ''toLocaleString'']"

definition addGitHubUrlForModule ::
  "(string \<rightharpoonup> string option \<times> string option) \<Rightarrow> Module \<Rightarrow> error + Module" where
  "addGitHubUrlForModule denoDatabase m =
     (if std m = False
      then (case denoDatabase (name m) of
              Some (owner, r) \<Rightarrow>
                Inr (m\<lparr>repo := Some (''https://github.com/'' @ toString owner @ ''/''
                                      @ toString r)\<rparr>)
            | None \<Rightarrow>
                if name m \<in> set object_prototype_names
                then Inr (m\<lparr>repo := Some (''https://github.com/'' @ toString None @ ''/''
                                           @ toString None)\<rparr>)
                else Inl TypeError)
      else Inr (m\<lparr>repo := Some (''https://github.com/denoland/deno/std/'' @ name m)\<rparr>))"

fun addGitHubUrlForModules ::
  "(string \<rightharpoonup> string option \<times> string option) \<Rightarrow> Module list \<Rightarrow> error + Module list" where
  "addGitHubUrlForModules denoDatabase [] = Inr []"
| "addGitHubUrlForModules denoDatabase (m # modules) =
     (case addGitHubUrlForModule denoDatabase m of
        Inl e \<Rightarrow> Inl e
      | Inr m' \<Rightarrow>
          (case addGitHubUrlForModules denoDatabase modules of
             Inl e \<Rightarrow> Inl e
           | Inr modules' \<Rightarrow> Inr (m' # modules')))"

definition addLatestReleaseForModule :: "(string \<Rightarrow> string) \<Rightarrow> string \<Rightarrow> Module \<Rightarrow> Module" where
  "addLatestReleaseForModule fetch_url denoStdLatestVersion m =
     (if std m = False
      then (let splitUrl = split_js (fetch_url (toString (repo m) @ ''/releases/latest'')) ''/''
            in m\<lparr>latestRelease := element splitUrl (length splitUrl - 1)\<rparr>)
      else m\<lparr>latestRelease := Some denoStdLatestVersion\<rparr>)"

definition addLatestReleaseForModules :: "(string \<Rightarrow> string) \<Rightarrow> string \<Rightarrow> Module list \<Rightarrow> Module list" where
  "addLatestReleaseForModules fetch_url denoStdLatestVersion modules =
     map (addLatestReleaseForModule fetch_url denoStdLatestVersion) modules"

section \<open>The purposes \<open>check\<close> and \<open>update\<close> (src/dmm.ts)\<close>

text \<open>\<open>Array.prototype.join\<close> on an array of strings.\<close>

fun join_js :: "string list \<Rightarrow> string \<Rightarrow> string" where
  "join_js [] sep = []"
| "join_js [x] sep = x"
| "join_js (x # y # ys) sep = x @ sep @ join_js (y # ys) sep"

text \<open>
  \<open>purposes.check\<close>: the loop carries \<open>depsCanBeUpdated\<close>, \<open>listOfModuleNamesToBeUpdated\<close>
  and the lines written to the console (colours left out). The comparison
  \<open>module.version !== module.latestRelease\<close> is between a string and an optional string.
\<close>

record check_state =
  depsCanBeUpdated :: bool
  listOfModuleNamesToBeUpdated :: "string list"
  console :: "string list"

definition check_module :: "check_state \<Rightarrow> Module \<Rightarrow> check_state" where
  "check_module st m =
     (if Some (version m) \<noteq> latestRelease m
      then \<lparr>depsCanBeUpdated = True,
            listOfModuleNamesToBeUpdated = listOfModuleNamesToBeUpdated st @ [name m],
            console = console st @
              [name m @ '' can be updated from '' @ version m @ '' to ''
               @ toString (latestRelease m)]\<rparr>
      else st)"

fun check_each :: "check_state \<Rightarrow> Module list \<Rightarrow> check_state" where
  "check_each st [] = st"
| "check_each st (m # modules) = check_each (check_module st m) modules"


text \<open>
  \<open>purposes.update\<close>. One pass of \<open>modules.forEach\<close> takes the content held in
  \<open>depsContent\<close> and the record, and gives the new content and the record as mutated.
\<close>

definition update_module :: "string \<Rightarrow> string \<Rightarrow> Module \<Rightarrow> string \<times> Module" where
  "update_module denoStdLatestVersion depsContent m =
     (if std m = True
      then (if version m = denoStdLatestVersion then (depsContent, m)
            else (replace_js depsContent
                    (''std@'' @ version m @ ''/'' @ name m)
                    (''std@'' @ denoStdLatestVersion @ ''/'' @ name m),
                  m\<lparr>updated := Some True\<rparr>))
      else (if Some (version m) = latestRelease m then (depsContent, m)
            else (replace_js depsContent
                    (name m @ ''@'' @ version m)
                    (name m @ ''@'' @ toString (latestRelease m)),
                  m\<lparr>updated := Some True\<rparr>)))"

fun update_each :: "string \<Rightarrow> string \<Rightarrow> Module list \<Rightarrow> string \<times> Module list" where
  "update_each denoStdLatestVersion depsContent [] = (depsContent, [])"
| "update_each denoStdLatestVersion depsContent (m # modules) =
     (case update_module denoStdLatestVersion depsContent m of
        (depsContent', m') \<Rightarrow>
          (case update_each denoStdLatestVersion depsContent' modules of
             (depsContent'', modules') \<Rightarrow> (depsContent'', m' # modules')))"

text \<open>The lines logged after the file is written, one per record flagged as updated.\<close>

fun updated_lines :: "string \<Rightarrow> Module list \<Rightarrow> string list" where
  "updated_lines denoStdLatestVersion [] = []"
| "updated_lines denoStdLatestVersion (m # modules) =
     (if std m = True \<and> updated m = Some True
      then [name m @ '' was updated from '' @ version m @ '' to '' @ denoStdLatestVersion]
      else if std m = False \<and> updated m = Some True
      then [name m @ '' was updated from '' @ version m @ '' to '' @ toString (latestRelease m)]
      else [])
     @ updated_lines denoStdLatestVersion modules"

text \<open>
  The result of \<open>purposes.update\<close>: the content written to \<open>deps.ts\<close>, the records as
  mutated, and the console lines.
\<close>

record update_result =
  written :: string
  modules_after :: "Module list"
  logged :: "string list"

definition update :: "string \<Rightarrow> string \<Rightarrow> Module list \<Rightarrow> update_result" where
  "update denoStdLatestVersion depsContent modules =
     (case update_each denoStdLatestVersion depsContent modules of
        (depsContent', modules') \<Rightarrow>
          \<lparr>written = depsContent',
           modules_after = modules',
           logged = [''Updating...''] @ updated_lines denoStdLatestVersion modules'
             @ (if \<not> (length (filter (\<lambda>m. updated m = Some True) modules') \<ge> 1)
                then [''Everything is already up to date''] else [])\<rparr>)"


section \<open>The update operation as a whole\<close>

text \<open>
  Modelled from the spec: the caller of the functions above (\<open>mod.ts\<close>) is missing from
  the files at hand. The data flow of one command is linear and single-pass: the
  parser, then the release resolver, then the selection and the rewriter, which are
  both in \<open>purposes.update\<close> (it skips the records that are current). The manifest is
  read once and written once at the end, so an exception of the parser or of the
  resolver ends the run before anything is written.
\<close>

definition update_command ::
  "(string \<rightharpoonup> string option \<times> string option) \<Rightarrow> (string \<Rightarrow> string) \<Rightarrow> string \<Rightarrow>
   string list \<Rightarrow> string \<Rightarrow> error + update_result" where
  "update_command denoDatabase fetch_url denoStdLatestVersion modulesForPurpose depsContent =
     (case getModulesFromDepsFile modulesForPurpose depsContent of
        Inl e \<Rightarrow> Inl e
      | Inr modules \<Rightarrow>
          (case addGitHubUrlForModules denoDatabase modules of
             Inl e \<Rightarrow> Inl e
           | Inr modules' \<Rightarrow>
               Inr (update denoStdLatestVersion depsContent
                      (addLatestReleaseForModules fetch_url denoStdLatestVersion modules'))))"

section \<open>The subcommands \<open>update\<close> and \<open>check\<close> built on \<open>ModuleService\<close>\<close>

text \<open>
  Modelled from the spec: the interface of the records returned by
  \<open>ModuleService.constructModulesDataFromDeps\<close> is missing from the files at hand, and so
  is \<open>ModuleService\<close>; the list of all records is an argument of the models below. The
  fields are those of the module record that the two subcommands read: the name, the
  standard-library flag, the imported version, the import URL as it stands in the
  manifest, and the latest version. The latest version is absent only until the
  resolution step, which is over when \<open>ModuleService\<close> returns; \<open>UpdateSubcommand\<close> passes
  it to \<open>String.prototype.replace\<close> as the replacement, so it is a string. The field
  names carry the suffix \<open>_s\<close> where they would clash with those of \<open>Module\<close>.
\<close>

record ModuleData =
  std_s :: bool
  name_s :: string
  importedVersion :: string
  importUrl :: string
  latestRelease_s :: string

datatype message = Info string | Error string

text \<open>
  What a command leaves behind: its exit status, the content of the manifest file, and
  the messages given to \<open>ConsoleLogger\<close>.
\<close>

record run =
  exit_status :: nat
  manifest :: string
  messages :: "message list"

text \<open>The selection both subcommands make among all records.\<close>

definition select :: "string list \<Rightarrow> ModuleData list \<Rightarrow> ModuleData list" where
  "select dependencies allModules =
     filter (\<lambda>m. if length dependencies \<noteq> 0
                 then array_indexOf dependencies (name_s m) > - 1
                 else True) allModules"

text \<open>\<open>UpdateSubcommand.handle\<close>: the arguments, then one pass of \<open>modules.forEach\<close>.\<close>

definition depsLocation_of :: "string list \<Rightarrow> string" where
  "depsLocation_of args =
     (case List.find (\<lambda>arg. indexOf arg ''.ts'' > - 1) args of
        Some arg \<Rightarrow> arg
      | None \<Rightarrow> ''deps.ts'')"

definition dependencies_of :: "string list \<Rightarrow> string list" where
  "dependencies_of args =
     filter (\<lambda>arg. indexOf arg ''.ts'' = - 1 \<and> indexOf arg ''update'' = - 1) args"

record handle_state =
  depsContent_h :: string
  depsWereUpdated :: bool
  messages_h :: "message list"

definition handle_module :: "handle_state \<Rightarrow> ModuleData \<Rightarrow> handle_state" where
  "handle_module st m =
     (if importedVersion m = latestRelease_s m then st
      else \<lparr>depsContent_h =
              (if std_s m
               then replace_js (depsContent_h st)
                      (''std@'' @ importedVersion m @ ''/'' @ name_s m)
                      (''std@'' @ latestRelease_s m @ ''/'' @ name_s m)
               else replace_js (depsContent_h st) (importUrl m)
                      (replace_js (importUrl m) (importedVersion m) (latestRelease_s m))),
            depsWereUpdated = True,
            messages_h = messages_h st @
              [Info (name_s m @ '' was updated from '' @ importedVersion m @ '' to ''
                     @ latestRelease_s m)]\<rparr>)"

fun handle_each :: "handle_state \<Rightarrow> ModuleData list \<Rightarrow> handle_state" where
  "handle_each st [] = st"
| "handle_each st (m # modules) = handle_each (handle_module st m) modules"

text \<open>
  \<open>handle args allModules content\<close>: \<open>content\<close> is what the file at \<open>depsLocation\<close> holds.
  \<open>Deno.exit(1)\<close> ends the process before the file is read or written.
\<close>

definition handle :: "string list \<Rightarrow> ModuleData list \<Rightarrow> string \<Rightarrow> run" where
  "handle args allModules content =
     (let dependencies = dependencies_of args;
          modules = select dependencies allModules
      in if length modules = 0
         then \<lparr>exit_status = 1, manifest = content,
               messages = [Error ''Modules specified do not exist in your dependencies.'']\<rparr>
         else (let st = handle_each
                     \<lparr>depsContent_h = content, depsWereUpdated = False,
                      messages_h = [Info ''Checking if your modules can be updated...'']\<rparr>
                     modules
               in \<lparr>exit_status = 0, manifest = depsContent_h st,
                   messages = messages_h st @
                     (if \<not> depsWereUpdated st
                      then [Info ''Everything is already up to date''] else [])\<rparr>))"

text \<open>The function \<open>check\<close> of the check subcommand; it never writes the file.\<close>

record compare_state =
  depsCanBeUpdated_c :: bool
  listOfModuleNamesToBeUpdated_c :: "string list"
  messages_c :: "message list"

definition compare_module :: "compare_state \<Rightarrow> ModuleData \<Rightarrow> compare_state" where
  "compare_module st m =
     (if importedVersion m \<noteq> latestRelease_s m
      then \<lparr>depsCanBeUpdated_c = True,
            listOfModuleNamesToBeUpdated_c = listOfModuleNamesToBeUpdated_c st @ [name_s m],
            messages_c = messages_c st @
              [Info (name_s m @ '' can be updated from '' @ importedVersion m @ '' to ''
                     @ latestRelease_s m)]\<rparr>
      else st)"

fun compare_each :: "compare_state \<Rightarrow> ModuleData list \<Rightarrow> compare_state" where
  "compare_each st [] = st"
| "compare_each st (m # modules) = compare_each (compare_module st m) modules"

definition check_command :: "string list \<Rightarrow> ModuleData list \<Rightarrow> string \<Rightarrow> run" where
  "check_command dependencies allModules content =
     (let selectedModules = select dependencies allModules
      in if length selectedModules = 0
         then \<lparr>exit_status = 1, manifest = content,
               messages = [Error ''Modules specified do not exist in your dependencies.'']\<rparr>
         else (let st = compare_each
                     \<lparr>depsCanBeUpdated_c = False, listOfModuleNamesToBeUpdated_c = [],
                      messages_c = [Info ''Comparing versions...'']\<rparr>
                     selectedModules
               in \<lparr>exit_status = 0, manifest = content,
                   messages = messages_c st @
                     (if depsCanBeUpdated_c st
                      then [Info (''To update, run: '' @ [CHR 0x0A] @ ''    dmm update ''
                                  @ join_js (listOfModuleNamesToBeUpdated_c st) '' '')]
                      else [Info ''Your dependencies are up to date''])\<rparr>))"


section \<open>Manifests used as concrete inputs\<close>

text \<open>A manifest with one standard-library import and one third-party import.\<close>

definition example_manifest :: string where
  \<open>example_manifest =
     ''export { fs } from "https://deno.land/std@0.50.0/fs/mod.ts"'' @ [CHR 0x0A] @
     ''import { Application } from "https://deno.land/x/oak@v5.0.0/mod.ts"'' @ [CHR 0x0A]\<close>


text \<open>
  The record of the third-party import of \<open>example_manifest\<close>, as the parser builds it
  (no release resolved yet), and the same module as \<open>ModuleService\<close> describes it.
\<close>

definition unresolved_oak :: Module where
  "unresolved_oak =
     \<lparr>std = False, name = ''oak'', version = ''v5.0.0'',
      url = ''https://deno.land/x/oak@v5.0.0/mod.ts'',
      repo = None, latestRelease = None, updated = None\<rparr>"

definition oak_data :: ModuleData where
  "oak_data =
     \<lparr>std_s = False, name_s = ''oak'', importedVersion = ''v5.0.0'',
      importUrl = ''https://deno.land/x/oak@v5.0.0/mod.ts'', latestRelease_s = ''v6.0.0''\<rparr>"

text \<open>
  A third-party import whose entry point is not \<open>mod.ts\<close>, and the record the parser
  builds from it.
\<close>

definition application_line :: string where
  \<open>application_line =
     ''export { Application } from "https://deno.land/x/oak@v5.0.0/application.ts"''\<close>

definition application_manifest :: string where
  "application_manifest = application_line @ [CHR 0x0A]"

definition application_oak :: Module where
  \<open>application_oak =
     \<lparr>std = False, name = ''oak'',
      version = ''export { Application } from "https://deno.land/x/oak@'',
      url = ''https://deno.land/x/oak@v5.0.0/application.ts'',
      repo = None, latestRelease = None, updated = None\<rparr>\<close>

text \<open>A manifest that imports the same module at the same version on two lines.\<close>

definition twice_manifest :: string where
  \<open>twice_manifest =
     ''import { Application } from "https://deno.land/x/oak@v5.0.0/mod.ts"'' @ [CHR 0x0A] @
     ''export { Router } from "https://deno.land/x/oak@v5.0.0/mod.ts"'' @ [CHR 0x0A]\<close>

text \<open>
  Single import lines: a well-formed third-party import, one followed by a comment,
  and two imports without a version.
\<close>

definition oak_line :: string where
  \<open>oak_line = ''import { Application } from "https://deno.land/x/oak@v5.0.0/mod.ts"''\<close>

definition commented_line :: string where
  \<open>commented_line =
     ''import { Application } from "https://deno.land/x/oak@v5.0.0/mod.ts"; // replaces https://deno.land/std@0.50.0/http/server.ts''\<close>

definition unversioned_oak_line :: string where
  \<open>unversioned_oak_line = ''import { Application } from "https://deno.land/x/oak/mod.ts"''\<close>

definition unversioned_std_line :: string where
  \<open>unversioned_std_line = ''import { exists } from "https://deno.land/std/fs/mod.ts"''\<close>

text \<open>A manifest whose imports are all third-party and match no fixed pattern.\<close>

definition third_party_manifest :: string where
  "third_party_manifest =
     application_line @ [CHR 0x0A] @ [CHR 0x0A] @ ''const port = 8000;'' @ [CHR 0x0A]
     @ unversioned_oak_line @ [CHR 0x0A]"

text \<open>
  A manifest with two third-party modules at the same version, the name of the second
  being the end of the name of the first; the same manifest after the first and after
  the second run of the update operation asked to update \<open>fs\<close>; and the manifest with
  only the import of \<open>fs\<close> updated.
\<close>

definition collision_manifest :: string where
  \<open>collision_manifest =
     ''import { walk } from "https://deno.land/x/myfs@1.0.0/mod.ts"'' @ [CHR 0x0A] @
     ''import { read } from "https://deno.land/x/fs@1.0.0/mod.ts"'' @ [CHR 0x0A]\<close>

definition collision_once :: string where
  \<open>collision_once =
     ''import { walk } from "https://deno.land/x/myfs@2.0.0/mod.ts"'' @ [CHR 0x0A] @
     ''import { read } from "https://deno.land/x/fs@1.0.0/mod.ts"'' @ [CHR 0x0A]\<close>

definition collision_twice :: string where
  \<open>collision_twice =
     ''import { walk } from "https://deno.land/x/myfs@2.0.0/mod.ts"'' @ [CHR 0x0A] @
     ''import { read } from "https://deno.land/x/fs@2.0.0/mod.ts"'' @ [CHR 0x0A]\<close>

definition collision_expected :: string where
  \<open>collision_expected =
     ''import { walk } from "https://deno.land/x/myfs@1.0.0/mod.ts"'' @ [CHR 0x0A] @
     ''import { read } from "https://deno.land/x/fs@2.0.0/mod.ts"'' @ [CHR 0x0A]\<close>

text \<open>
  The record of \<open>fs\<close> as the parser builds it, the two modules as \<open>ModuleService\<close>
  describes them, and a resolver for which the latest release of \<open>fs\<close> is \<open>2.0.0\<close>.
\<close>

definition fs_module :: Module where
  "fs_module =
     \<lparr>std = False, name = ''fs'', version = ''1.0.0'',
      url = ''https://deno.land/x/fs@1.0.0/mod.ts'',
      repo = None, latestRelease = None, updated = None\<rparr>"

definition fs_data :: ModuleData where
  "fs_data =
     \<lparr>std_s = False, name_s = ''fs'', importedVersion = ''1.0.0'',
      importUrl = ''https://deno.land/x/fs@1.0.0/mod.ts'', latestRelease_s = ''2.0.0''\<rparr>"

definition myfs_data :: ModuleData where
  "myfs_data =
     \<lparr>std_s = False, name_s = ''myfs'', importedVersion = ''1.0.0'',
      importUrl = ''https://deno.land/x/myfs@1.0.0/mod.ts'', latestRelease_s = ''1.0.0''\<rparr>"

definition fs_database :: "string \<rightharpoonup> string option \<times> string option" where
  "fs_database = [''fs'' \<mapsto> (Some ''acme'', Some ''fs'')]"

definition fs_fetch_url :: "string \<Rightarrow> string" where
  "fs_fetch_url request = ''https://github.com/acme/fs/releases/tag/2.0.0''"

text \<open>
  A manifest in which the fragment \<open>a@a\<close> of its one import occurs twice in a comment,
  the second occurrence overlapping the first; and the record of that import.
\<close>

definition overlap_manifest :: string where
  \<open>overlap_manifest =
     ''// pinned: a@a@a'' @ [CHR 0x0A] @
     ''import { a } from "https://deno.land/x/a@a/mod.ts"'' @ [CHR 0x0A]\<close>

definition a_module :: Module where
  "a_module =
     \<lparr>std = False, name = ''a'', version = ''a'',
      url = ''https://deno.land/x/a@a/mod.ts'',
      repo = None, latestRelease = None, updated = None\<rparr>"

section \<open>Facts about the primitives\<close>

text \<open>
  \<open>find_first\<close> and \<open>find_last\<close> return the position of an occurrence, the first and
  the last one respectively, and return nothing exactly when there is no occurrence.
\<close>

lemma find_first_decomp:
  "find_first n s = Some i \<Longrightarrow> s = take i s @ n @ drop (i + length n) s"
proof (induction s arbitrary: i)
  case Nil
  then show ?case by (simp split: if_splits)
next
  case (Cons c cs)
  show ?case
  proof (cases "prefix n (c # cs)")
    case True
    with Cons.prems have "i = 0" by simp
    moreover from True obtain r where "c # cs = n @ r" by (auto simp: prefix_def)
    ultimately show ?thesis by simp
  next
    case False
    with Cons.prems obtain j where j: "find_first n cs = Some j" "i = Suc j"
      by auto
    from Cons.IH [OF j(1)] j(2) show ?thesis by simp
  qed
qed

lemma find_first_least:
  "find_first n s = Some i \<Longrightarrow> s = p @ n @ q \<Longrightarrow> i \<le> length p"
proof (induction s arbitrary: i p)
  case Nil
  then show ?case by (simp split: if_splits)
next
  case (Cons c cs)
  show ?case
  proof (cases "prefix n (c # cs)")
    case True
    with Cons.prems(1) have "i = 0" by simp
    then show ?thesis by simp
  next
    case False
    with Cons.prems(1) obtain j where j: "find_first n cs = Some j" "i = Suc j"
      by auto
    from False Cons.prems(2) have "p \<noteq> []" by (cases p) auto
    then obtain p' where p': "p = c # p'" using Cons.prems(2) by (cases p) auto
    with Cons.prems(2) have "cs = p' @ n @ q" by simp
    from Cons.IH [OF j(1) this] j(2) p' show ?thesis by simp
  qed
qed

lemma find_first_None_iff: "find_first n s = None \<longleftrightarrow> \<not> sublist n s"
proof (induction s)
  case Nil
  then show ?case by simp
next
  case (Cons c cs)
  then show ?case by (auto simp: sublist_Cons_right)
qed

lemma find_last_decomp:
  "find_last n s = Some i \<Longrightarrow> s = take i s @ n @ drop (i + length n) s"
proof (induction s arbitrary: i)
  case Nil
  then show ?case by (simp split: if_splits)
next
  case (Cons c cs)
  show ?case
  proof (cases "find_last n cs")
    case None
    with Cons.prems have "prefix n (c # cs)" "i = 0" by (auto split: if_splits)
    then obtain r where "c # cs = n @ r" by (auto simp: prefix_def)
    with \<open>i = 0\<close> show ?thesis by simp
  next
    case (Some j)
    with Cons.prems have "i = Suc j" by simp
    with Cons.IH [OF Some] show ?thesis by simp
  qed
qed

lemma find_last_None_iff: "find_last n s = None \<longleftrightarrow> \<not> sublist n s"
proof (induction s)
  case Nil
  then show ?case by simp
next
  case (Cons c cs)
  then show ?case by (auto simp: sublist_Cons_right split: option.splits)
qed

lemma find_last_greatest:
  "find_last n s = Some i \<Longrightarrow> s = p @ n @ q \<Longrightarrow> length p \<le> i"
proof (induction s arbitrary: i p)
  case Nil
  then show ?case by (simp split: if_splits)
next
  case (Cons c cs)
  show ?case
  proof (cases p)
    case Nil
    then show ?thesis by simp
  next
    case (Cons c' p')
    with Cons.prems(2) have cs: "cs = p' @ n @ q" by simp
    then have "sublist n cs" by (auto simp: sublist_def)
    then obtain j where j: "find_last n cs = Some j"
      using find_last_None_iff [of n cs] by (cases "find_last n cs") auto
    with Cons.prems(1) have "i = Suc j" by simp
    with Cons.IH [OF j cs] Cons show ?thesis by simp
  qed
qed

lemma sublist_substring: "sublist (substring s a b) s"
  unfolding substring_def Let_def
  by (metis sublist_drop sublist_order.order_trans sublist_take)

lemma substring_in_range:
  "0 \<le> a \<Longrightarrow> a \<le> b \<Longrightarrow> b \<le> int (length s) \<Longrightarrow>
   substring s a b = take (nat (b - a)) (drop (nat a) s)"
  by (simp add: substring_def Let_def min_def max_def)

lemma array_indexOf_ge_m1: "array_indexOf xs x \<ge> - 1"
  by (induction xs) (auto simp: Let_def)

lemma array_indexOf_iff: "array_indexOf xs x \<ge> 0 \<longleftrightarrow> x \<in> set xs"
proof (induction xs)
  case Nil
  then show ?case by simp
next
  case (Cons y ys)
  have "array_indexOf ys x \<ge> - 1" by (rule array_indexOf_ge_m1)
  with Cons show ?case by (auto simp: Let_def)
qed

lemma array_indexOf_iff': "array_indexOf xs x > - 1 \<longleftrightarrow> x \<in> set xs"
  using array_indexOf_iff [of xs x] by auto

lemma split_js_not_Nil: "sep \<noteq> [] \<Longrightarrow> split_js s sep \<noteq> []"
  by (subst split_js.simps) (simp split: option.splits)


section \<open>The name filter of the parser\<close>

text \<open>
  The array built so far is only ever extended, and the names asked for decide nothing
  but whether a record is pushed: an exception is raised for the same lines whatever the
  filter is.
\<close>

lemma collate_acc:
  "collate req deps acc =
     (case collate req deps [] of Inl e \<Rightarrow> Inl e | Inr ms \<Rightarrow> Inr (acc @ ms))"
proof (induction deps arbitrary: acc)
  case Nil
  then show ?case by simp
next
  case (Cons dep deps)
  have step: "collate req deps (acc @ [m]) =
      (case collate req deps [m] of Inl e \<Rightarrow> Inl e | Inr ms \<Rightarrow> Inr (acc @ ms))" for m
    using Cons.IH [of "acc @ [m]"] Cons.IH [of "[m]"] by (simp split: sum.splits)
  show ?case
  proof (cases "req = []")
    case True
    with step have "collate [] deps (acc @ [m]) =
      (case collate [] deps [m] of Inl e \<Rightarrow> Inl e | Inr ms \<Rightarrow> Inr (acc @ ms))" for m
      by simp
    with True Cons.IH [of acc] show ?thesis
      by (simp split: sum.splits)
  next
    case False
    then show ?thesis
      by (simp add: step Cons.IH [of acc] split: sum.splits)
  qed
qed

lemma collate_filter:
  "collate req deps [] =
     (case collate [] deps [] of
        Inl e \<Rightarrow> Inl e
      | Inr ms \<Rightarrow> Inr (if req = [] then ms else filter (\<lambda>m. name m \<in> set req) ms))"
proof (induction deps)
  case Nil
  then show ?case by simp
next
  case (Cons dep deps)
  show ?case
  proof (cases "req = []")
    case True
    then show ?thesis by (simp split: sum.splits)
  next
    case False
    have a: "collate req deps [m] =
        (case collate [] deps [] of Inl e \<Rightarrow> Inl e
         | Inr ms \<Rightarrow> Inr (m # filter (\<lambda>m. name m \<in> set req) ms))" for m
      using False by (subst collate_acc) (simp add: Cons.IH split: sum.splits)
    have b: "collate [] deps [m] =
        (case collate [] deps [] of Inl e \<Rightarrow> Inl e | Inr ms \<Rightarrow> Inr (m # ms))" for m
      by (subst collate_acc) (simp split: sum.splits)
    from False show ?thesis
      by (simp add: a b Cons.IH array_indexOf_iff split: sum.splits)
  qed
qed

lemma getModulesFromDepsFile_filter:
  "getModulesFromDepsFile [] depsContent = Inr declared \<Longrightarrow>
   getModulesFromDepsFile requestedNames depsContent =
     Inr (if requestedNames = [] then declared
          else filter (\<lambda>m. name m \<in> set requestedNames) declared)"
  unfolding getModulesFromDepsFile_def
  by (subst collate_filter) simp

lemma getModulesFromDepsFile_error:
  "getModulesFromDepsFile [] depsContent = Inl e \<Longrightarrow>
   getModulesFromDepsFile requestedNames depsContent = Inl e"
  unfolding getModulesFromDepsFile_def
  by (subst collate_filter) simp

lemma select_names:
  "set (map name_s (select dependencies allModules)) =
     (if dependencies = [] then set (map name_s allModules)
      else set (map name_s allModules) \<inter> set dependencies)"
  by (auto simp: select_def array_indexOf_iff')

lemma example_manifest_parsed:
  "getModulesFromDepsFile [] example_manifest =
     Inr [\<lparr>std = True, name = ''fs'', version = ''0.50.0'',
           url = ''https://deno.land/std@0.50.0/fs/mod.ts'',
           repo = None, latestRelease = None, updated = None\<rparr>,
          \<lparr>std = False, name = ''oak'', version = ''v5.0.0'',
           url = ''https://deno.land/x/oak@v5.0.0/mod.ts'',
           repo = None, latestRelease = None, updated = None\<rparr>]"
  unfolding example_manifest_def by code_simp

text \<open>
  Claim C6 (filter correctness). Take the names declared in a manifest to be the names
  of the records the parser returns when no name is asked for. Then for every list of
  requested names the parser returns, and the set of names of its records is the set
  of declared names when the list is empty, and the intersection of the declared names
  with the requested ones otherwise. The selection of the check and update subcommands
  among the records of \<open>ModuleService\<close> obeys the same rule.
\<close>

theorem filter_correctness:
  assumes "getModulesFromDepsFile [] depsContent = Inr declared"
  shows "(\<exists>modules. getModulesFromDepsFile requestedNames depsContent = Inr modules \<and>
            set (map name modules) =
              (if requestedNames = [] then set (map name declared)
               else set (map name declared) \<inter> set requestedNames)) \<and>
         set (map name_s (select requestedNames allModules)) =
           (if requestedNames = [] then set (map name_s allModules)
            else set (map name_s allModules) \<inter> set requestedNames)"
proof -
  have "getModulesFromDepsFile requestedNames depsContent =
      Inr (if requestedNames = [] then declared
           else filter (\<lambda>m. name m \<in> set requestedNames) declared)"
    using assms by (rule getModulesFromDepsFile_filter)
  then have "\<exists>modules. getModulesFromDepsFile requestedNames depsContent = Inr modules \<and>
      set (map name modules) =
        (if requestedNames = [] then set (map name declared)
         else set (map name declared) \<inter> set requestedNames)"
    by auto
  with select_names show ?thesis by blast
qed

theorem filter_correctness_witness:
  "(\<exists>modules. getModulesFromDepsFile [''oak''] example_manifest = Inr modules \<and>
      set (map name modules) = {''oak''}) \<and>
   set (map name_s (select [''oak'']
     [\<lparr>std_s = True, name_s = ''fs'', importedVersion = ''0.50.0'',
       importUrl = ''https://deno.land/std@0.50.0/fs/mod.ts'', latestRelease_s = ''0.60.0''\<rparr>,
      \<lparr>std_s = False, name_s = ''oak'', importedVersion = ''v5.0.0'',
       importUrl = ''https://deno.land/x/oak@v5.0.0/mod.ts'', latestRelease_s = ''v6.0.0''\<rparr>]))
     = {''oak''}"
  using filter_correctness [OF example_manifest_parsed, of "[''oak'']"
      "[\<lparr>std_s = True, name_s = ''fs'', importedVersion = ''0.50.0'',
         importUrl = ''https://deno.land/std@0.50.0/fs/mod.ts'', latestRelease_s = ''0.60.0''\<rparr>,
        \<lparr>std_s = False, name_s = ''oak'', importedVersion = ''v5.0.0'',
         importUrl = ''https://deno.land/x/oak@v5.0.0/mod.ts'', latestRelease_s = ''v6.0.0''\<rparr>]"]
  by simp


section \<open>Comparing versions\<close>



lemma check_each_console:
  "console (check_each st modules) =
     console st
     @ map (\<lambda>m. name m @ '' can be updated from '' @ version m @ '' to ''
                 @ toString (latestRelease m))
         (filter (\<lambda>m. latestRelease m \<noteq> Some (version m)) modules)"
  by (induction modules arbitrary: st) (auto simp: check_module_def)


lemma compare_each_messages:
  "messages_c (compare_each st modules) =
     messages_c st
     @ map (\<lambda>m. Info (name_s m @ '' can be updated from '' @ importedVersion m @ '' to ''
                 @ latestRelease_s m))
         (filter (\<lambda>m. latestRelease_s m \<noteq> importedVersion m) modules)"
  by (induction modules arbitrary: st) (auto simp: compare_module_def)




section \<open>Commands that select no record\<close>

lemma check_command_exit:
  "exit_status (check_command dependencies allModules content) =
     (if select dependencies allModules = [] then 1 else 0)"
  by (simp add: check_command_def Let_def)

lemma handle_exit:
  "exit_status (handle args allModules content) =
     (if select (dependencies_of args) allModules = [] then 1 else 0)"
  by (simp add: handle_def Let_def)





section \<open>The flag set by the rewriter\<close>

lemma application_manifest_parsed:
  "getModulesFromDepsFile [] application_manifest = Inr [application_oak]"
  unfolding application_manifest_def application_line_def application_oak_def by code_simp

lemma update_module_skip:
  "(if std m then version m = denoStdLatestVersion else Some (version m) = latestRelease m) \<Longrightarrow>
   update_module denoStdLatestVersion depsContent m = (depsContent, m)"
  by (auto simp: update_module_def split: if_splits)

lemma update_module_flag:
  "\<not> (if std m then version m = denoStdLatestVersion else Some (version m) = latestRelease m) \<Longrightarrow>
   snd (update_module denoStdLatestVersion depsContent m) = m\<lparr>updated := Some True\<rparr>"
  by (auto simp: update_module_def split: if_splits)

lemma update_each_modules:
  "snd (update_each denoStdLatestVersion depsContent modules) =
     map (\<lambda>m. if (if std m then version m = denoStdLatestVersion
                    else Some (version m) = latestRelease m)
               then m else m\<lparr>updated := Some True\<rparr>) modules"
proof (induction modules arbitrary: depsContent)
  case Nil
  then show ?case by simp
next
  case (Cons m modules)
  obtain c m' where step: "update_module denoStdLatestVersion depsContent m = (c, m')"
    by (cases "update_module denoStdLatestVersion depsContent m")
  obtain c' ms' where rest: "update_each denoStdLatestVersion c modules = (c', ms')"
    by (cases "update_each denoStdLatestVersion c modules")
  from Cons.IH [of c] rest have ms': "ms' =
     map (\<lambda>m. if (if std m then version m = denoStdLatestVersion
                    else Some (version m) = latestRelease m)
               then m else m\<lparr>updated := Some True\<rparr>) modules"
    by simp
  from step update_module_skip [of m denoStdLatestVersion depsContent]
    update_module_flag [of m denoStdLatestVersion depsContent]
  have m': "m' = (if (if std m then version m = denoStdLatestVersion
                    else Some (version m) = latestRelease m)
               then m else m\<lparr>updated := Some True\<rparr>)"
    by (simp split: if_splits)
  from step rest ms' m' show ?case by simp
qed

text \<open>
  Claim C4 (the flag \<open>updated\<close>), as the code has it. A record is skipped when its
  version equals the latest one, which for a standard-library record is the constant
  \<open>denoStdLatestVersion\<close> and for a third-party record its \<open>latestRelease\<close>: a skipped
  record leaves the content and itself as they were, so its flag stays as it was. Every
  other record leaves \<open>purposes.update\<close> with \<open>updated\<close> set to true, whether or not its
  fragment was found in the content.
\<close>

theorem updated_flag:
  "modules_after (update denoStdLatestVersion depsContent modules) =
     map (\<lambda>m. if (if std m then version m = denoStdLatestVersion
                    else Some (version m) = latestRelease m)
               then m else m\<lparr>updated := Some True\<rparr>) modules \<and>
   ((if std m then version m = denoStdLatestVersion else Some (version m) = latestRelease m) \<longrightarrow>
      update_module denoStdLatestVersion depsContent m = (depsContent, m))"
proof -
  have "modules_after (update denoStdLatestVersion depsContent modules) =
      snd (update_each denoStdLatestVersion depsContent modules)"
    by (simp add: update_def split: prod.splits)
  with update_each_modules update_module_skip show ?thesis
    by metis
qed

theorem updated_flag_witness:
  "map updated (modules_after (update ''0.60.0'' example_manifest
       [unresolved_oak\<lparr>latestRelease := Some ''v5.0.0''\<rparr>,
        unresolved_oak\<lparr>latestRelease := Some ''v6.0.0''\<rparr>])) = [None, Some True] \<and>
   update_module ''0.60.0'' example_manifest (unresolved_oak\<lparr>latestRelease := Some ''v5.0.0''\<rparr>)
     = (example_manifest, unresolved_oak\<lparr>latestRelease := Some ''v5.0.0''\<rparr>)"
  using updated_flag [of "''0.60.0''" example_manifest
       "[unresolved_oak\<lparr>latestRelease := Some ''v5.0.0''\<rparr>,
         unresolved_oak\<lparr>latestRelease := Some ''v6.0.0''\<rparr>]"
       "unresolved_oak\<lparr>latestRelease := Some ''v5.0.0''\<rparr>"]
  by (simp add: unresolved_oak_def)

text \<open>
  Against claim C4 as stated: the record parsed from \<open>application_manifest\<close> has a
  fragment that does not occur in the manifest; once a release is resolved for it,
  \<open>purposes.update\<close> writes the content back unchanged and yet flags the record.
\<close>

theorem updated_flag_without_replacement:
  "getModulesFromDepsFile [] application_manifest = Inr [application_oak] \<and>
   find_first (name application_oak @ ''@'' @ version application_oak) application_manifest = None \<and>
   written (update ''0.60.0'' application_manifest
              [application_oak\<lparr>latestRelease := Some ''v6.0.0''\<rparr>]) = application_manifest \<and>
   map updated (modules_after (update ''0.60.0'' application_manifest
              [application_oak\<lparr>latestRelease := Some ''v6.0.0''\<rparr>])) = [Some True]"
proof -
  have nf: "find_first (name application_oak @ ''@'' @ version application_oak)
      application_manifest = None"
    unfolding application_manifest_def application_line_def application_oak_def by code_simp
  have "update_module ''0.60.0'' application_manifest
          (application_oak\<lparr>latestRelease := Some ''v6.0.0''\<rparr>) =
        (application_manifest, application_oak\<lparr>latestRelease := Some ''v6.0.0'', updated := Some True\<rparr>)"
    using nf by (simp add: update_module_def replace_js_def application_oak_def)
  then show ?thesis
    using nf application_manifest_parsed by (simp add: update_def)
qed

section \<open>Replacement of the first occurrence\<close>

lemma find_first_at_first:
  assumes "s = before @ pat @ after"
      and "\<forall>p q. s = p @ pat @ q \<longrightarrow> length before \<le> length p"
  shows "find_first pat s = Some (length before)"
proof -
  from assms(1) have "sublist pat s" by (auto simp: sublist_def)
  then obtain i where i: "find_first pat s = Some i"
    using find_first_None_iff [of pat s] by (cases "find_first pat s") auto
  from find_first_bound [OF i] have "length (take i s) = i" by simp
  with find_first_decomp [OF i] assms(2) have "length before \<le> i" by metis
  moreover from find_first_least [OF i assms(1)] have "i \<le> length before" .
  ultimately show ?thesis using i by simp
qed

lemma replace_js_first:
  assumes "s = before @ pat @ after"
      and "\<forall>p q. s = p @ pat @ q \<longrightarrow> length before \<le> length p"
  shows "replace_js s pat rep = before @ getSubstitution pat before after rep @ after"
  using find_first_at_first [OF assms] assms(1) by (simp add: replace_js_def)

lemma replace_js_absent: "\<not> sublist pat s \<Longrightarrow> replace_js s pat rep = s"
  using find_first_None_iff [of pat s] by (simp add: replace_js_def)

lemma getSubstitution_plain:
  "CHR ''$'' \<notin> set rep \<Longrightarrow> getSubstitution matched before after rep = rep"
  by (induction matched before after rep rule: getSubstitution.induct) auto

text \<open>
  Claim C10 (only the first occurrence is replaced), as the code has it. Take a record
  that is not skipped, with its fragment \<open>old\<close> and its replacement \<open>new\<close>. If the
  content is \<open>before @ old @ after\<close> with no occurrence of \<open>old\<close> starting earlier, one
  pass of the loop of \<open>purposes.update\<close> gives \<open>before\<close>, then the replacement as
  \<open>String.prototype.replace\<close> expands it (\<open>new\<close> itself when it has no dollar sign),
  then \<open>after\<close>: the text before the first occurrence and the text after its end are
  left as they were, so every occurrence that starts at or after that end is kept. If
  \<open>old\<close> does not occur, the content is left as it was. The same holds for one pass of
  the loop of \<open>UpdateSubcommand.handle\<close>, with its fragment and replacement.
\<close>

theorem first_occurrence_only:
  assumes "\<not> (if std m then version m = denoStdLatestVersion
               else Some (version m) = latestRelease m)"
      and "old = (if std m then ''std@'' @ version m @ ''/'' @ name m
                  else name m @ ''@'' @ version m)"
      and "new = (if std m then ''std@'' @ denoStdLatestVersion @ ''/'' @ name m
                  else name m @ ''@'' @ toString (latestRelease m))"
      and "importedVersion d \<noteq> latestRelease_s d"
      and "old_h = (if std_s d then ''std@'' @ importedVersion d @ ''/'' @ name_s d
                    else importUrl d)"
      and "new_h = (if std_s d then ''std@'' @ latestRelease_s d @ ''/'' @ name_s d
                    else replace_js (importUrl d) (importedVersion d) (latestRelease_s d))"
  shows "(\<forall>before after.
            depsContent = before @ old @ after \<and>
            (\<forall>p q. depsContent = p @ old @ q \<longrightarrow> length before \<le> length p) \<longrightarrow>
            fst (update_module denoStdLatestVersion depsContent m) =
              before @ getSubstitution old before after new @ after \<and>
            (CHR ''$'' \<notin> set new \<longrightarrow>
               fst (update_module denoStdLatestVersion depsContent m) = before @ new @ after)) \<and>
         (\<not> sublist old depsContent \<longrightarrow>
            fst (update_module denoStdLatestVersion depsContent m) = depsContent) \<and>
         (\<forall>before after.
            depsContent_h st = before @ old_h @ after \<and>
            (\<forall>p q. depsContent_h st = p @ old_h @ q \<longrightarrow> length before \<le> length p) \<longrightarrow>
            depsContent_h (handle_module st d) =
              before @ getSubstitution old_h before after new_h @ after \<and>
            (CHR ''$'' \<notin> set new_h \<longrightarrow>
               depsContent_h (handle_module st d) = before @ new_h @ after)) \<and>
         (\<not> sublist old_h (depsContent_h st) \<longrightarrow>
            depsContent_h (handle_module st d) = depsContent_h st)"
proof -
  have u: "fst (update_module denoStdLatestVersion depsContent m) = replace_js depsContent old new"
    using assms(1,2,3) by (cases "std m") (simp_all add: update_module_def)
  have h: "depsContent_h (handle_module st d) = replace_js (depsContent_h st) old_h new_h"
    using assms(4,5,6) by (cases "std_s d") (simp_all add: handle_module_def)
  have found: "replace_js s pat rep = before @ getSubstitution pat before after rep @ after \<and>
      (CHR ''$'' \<notin> set rep \<longrightarrow> replace_js s pat rep = before @ rep @ after)"
    if "s = before @ pat @ after"
      and "\<forall>p q. s = p @ pat @ q \<longrightarrow> length before \<le> length p"
    for s pat rep before after
    using replace_js_first [OF that, of rep] by (simp add: getSubstitution_plain)
  from found have 1: "\<forall>before after.
            depsContent = before @ old @ after \<and>
            (\<forall>p q. depsContent = p @ old @ q \<longrightarrow> length before \<le> length p) \<longrightarrow>
            fst (update_module denoStdLatestVersion depsContent m) =
              before @ getSubstitution old before after new @ after \<and>
            (CHR ''$'' \<notin> set new \<longrightarrow>
               fst (update_module denoStdLatestVersion depsContent m) = before @ new @ after)"
    unfolding u by blast
  have 2: "\<not> sublist old depsContent \<longrightarrow>
            fst (update_module denoStdLatestVersion depsContent m) = depsContent"
    unfolding u by (simp add: replace_js_absent)
  from found have 3: "\<forall>before after.
            depsContent_h st = before @ old_h @ after \<and>
            (\<forall>p q. depsContent_h st = p @ old_h @ q \<longrightarrow> length before \<le> length p) \<longrightarrow>
            depsContent_h (handle_module st d) =
              before @ getSubstitution old_h before after new_h @ after \<and>
            (CHR ''$'' \<notin> set new_h \<longrightarrow>
               depsContent_h (handle_module st d) = before @ new_h @ after)"
    unfolding h by blast
  have 4: "\<not> sublist old_h (depsContent_h st) \<longrightarrow>
            depsContent_h (handle_module st d) = depsContent_h st"
    unfolding h by (simp add: replace_js_absent)
  from 1 2 3 4 show ?thesis by blast
qed

lemma twice_first:
  "find_first ''oak@v5.0.0'' twice_manifest = Some 49"
  unfolding twice_manifest_def by code_simp

lemma twice_first_url:
  "find_first ''https://deno.land/x/oak@v5.0.0/mod.ts'' twice_manifest = Some 29"
  unfolding twice_manifest_def by code_simp

theorem first_occurrence_only_witness:
  \<open>fst (update_module ''0.60.0'' twice_manifest
          (unresolved_oak\<lparr>latestRelease := Some ''v6.0.0''\<rparr>)) =
     ''import { Application } from "https://deno.land/x/oak@v6.0.0/mod.ts"'' @ [CHR 0x0A] @
     ''export { Router } from "https://deno.land/x/oak@v5.0.0/mod.ts"'' @ [CHR 0x0A] \<and>
   depsContent_h (handle_module
       \<lparr>depsContent_h = twice_manifest, depsWereUpdated = False, messages_h = []\<rparr> oak_data) =
     ''import { Application } from "https://deno.land/x/oak@v6.0.0/mod.ts"'' @ [CHR 0x0A] @
     ''export { Router } from "https://deno.land/x/oak@v5.0.0/mod.ts"'' @ [CHR 0x0A]\<close>
proof -
  let ?m = "unresolved_oak\<lparr>latestRelease := Some ''v6.0.0''\<rparr>"
  let ?st = "\<lparr>depsContent_h = twice_manifest, depsWereUpdated = False, messages_h = []\<rparr>"
  let ?before = \<open>''import { Application } from "https://deno.land/x/''\<close>
  let ?after = \<open>''/mod.ts"'' @ [CHR 0x0A] @
     ''export { Router } from "https://deno.land/x/oak@v5.0.0/mod.ts"'' @ [CHR 0x0A]\<close>
  let ?before_h = \<open>''import { Application } from "''\<close>
  let ?after_h = \<open>''"'' @ [CHR 0x0A] @
     ''export { Router } from "https://deno.land/x/oak@v5.0.0/mod.ts"'' @ [CHR 0x0A]\<close>
  let ?url = "''https://deno.land/x/oak@v5.0.0/mod.ts''"
  let ?url' = "''https://deno.land/x/oak@v6.0.0/mod.ts''"
  have a1: "\<not> (if std ?m then version ?m = ''0.60.0'' else Some (version ?m) = latestRelease ?m)"
    by (simp add: unresolved_oak_def)
  have a2: "''oak@v5.0.0'' =
      (if std ?m then ''std@'' @ version ?m @ ''/'' @ name ?m else name ?m @ ''@'' @ version ?m)"
    by (simp add: unresolved_oak_def)
  have a3: "''oak@v6.0.0'' =
      (if std ?m then ''std@'' @ ''0.60.0'' @ ''/'' @ name ?m
       else name ?m @ ''@'' @ toString (latestRelease ?m))"
    by (simp add: unresolved_oak_def toString_def)
  have a4: "importedVersion oak_data \<noteq> latestRelease_s oak_data"
    by (simp add: oak_data_def)
  have a5: "?url =
      (if std_s oak_data then ''std@'' @ importedVersion oak_data @ ''/'' @ name_s oak_data
       else importUrl oak_data)"
    by (simp add: oak_data_def)
  have "replace_js ?url ''v5.0.0'' ''v6.0.0'' = ?url'"
    by code_simp
  then have a6: "?url' =
      (if std_s oak_data then ''std@'' @ latestRelease_s oak_data @ ''/'' @ name_s oak_data
       else replace_js (importUrl oak_data) (importedVersion oak_data) (latestRelease_s oak_data))"
    by (simp add: oak_data_def)
  have dec: "twice_manifest = ?before @ ''oak@v5.0.0'' @ ?after"
    by (simp add: twice_manifest_def)
  have len: "length ?before = 49"
    by simp
  have least: "\<forall>p q. twice_manifest = p @ ''oak@v5.0.0'' @ q \<longrightarrow> length ?before \<le> length p"
    unfolding len using find_first_least [OF twice_first] by blast
  have dec_h: "depsContent_h ?st = ?before_h @ ?url @ ?after_h"
    by (simp add: twice_manifest_def)
  have len_h: "length ?before_h = 29"
    by simp
  have least_h: "\<forall>p q. depsContent_h ?st = p @ ?url @ q \<longrightarrow> length ?before_h \<le> length p"
    unfolding len_h using find_first_least [OF twice_first_url] by simp
  have plain: "CHR ''$'' \<notin> set ''oak@v6.0.0''" "CHR ''$'' \<notin> set ?url'"
    by simp_all
  note inst = first_occurrence_only [OF a1 a2 a3 a4 a5 a6, of twice_manifest ?st]
  from inst dec least plain(1)
  have 1: "fst (update_module ''0.60.0'' twice_manifest ?m) = ?before @ ''oak@v6.0.0'' @ ?after"
    by blast
  from inst dec_h least_h plain(2)
  have 2: "depsContent_h (handle_module ?st oak_data) = ?before_h @ ?url' @ ?after_h"
    by blast
  from 1 2 show ?thesis by simp
qed

text \<open>
  Against claim C10 as stated: in \<open>overlap_manifest\<close> the fragment \<open>a@a\<close> occurs at
  position 11 and again at position 13, overlapping the first occurrence; after the
  pass the text at position 13 is \<open>b@a\<close>, so this later occurrence is not left as it
  was.
\<close>

theorem overlapping_occurrence_is_changed:
  \<open>getModulesFromDepsFile [] overlap_manifest = Inr [a_module] \<and>
   find_first ''a@a'' overlap_manifest = Some 11 \<and>
   take 3 (drop 13 overlap_manifest) = ''a@a'' \<and>
   fst (update_module ''0.60.0'' overlap_manifest (a_module\<lparr>latestRelease := Some ''b''\<rparr>)) =
     ''// pinned: a@b@a'' @ [CHR 0x0A] @
     ''import { a } from "https://deno.land/x/a@a/mod.ts"'' @ [CHR 0x0A] \<and>
   take 3 (drop 13
     (fst (update_module ''0.60.0'' overlap_manifest (a_module\<lparr>latestRelease := Some ''b''\<rparr>))))
     = ''b@a''\<close>
proof -
  have 1: "getModulesFromDepsFile [] overlap_manifest = Inr [a_module]"
    unfolding overlap_manifest_def a_module_def by code_simp
  have 2: "find_first ''a@a'' overlap_manifest = Some 11"
    unfolding overlap_manifest_def by code_simp
  have 3: "take 3 (drop 13 overlap_manifest) = ''a@a''"
    unfolding overlap_manifest_def by code_simp
  have 4: \<open>fst (update_module ''0.60.0'' overlap_manifest (a_module\<lparr>latestRelease := Some ''b''\<rparr>)) =
     ''// pinned: a@b@a'' @ [CHR 0x0A] @
     ''import { a } from "https://deno.land/x/a@a/mod.ts"'' @ [CHR 0x0A]\<close>
    unfolding overlap_manifest_def a_module_def by code_simp
  have 5: "take 3 (drop 13
     (fst (update_module ''0.60.0'' overlap_manifest (a_module\<lparr>latestRelease := Some ''b''\<rparr>))))
     = ''b@a''"
    unfolding 4 by code_simp
  from 1 2 3 4 5 show ?thesis by blast
qed

section \<open>Classification of a line\<close>

lemma indexOf_ge0_iff: "indexOf s n \<ge> 0 \<longleftrightarrow> sublist n s"
  using find_first_None_iff [of n s] by (cases "find_first n s") (simp_all add: indexOf_def)

lemma indexOf_m1_iff: "indexOf s n = - 1 \<longleftrightarrow> \<not> sublist n s"
  using find_first_None_iff [of n s] by (cases "find_first n s") (simp_all add: indexOf_def)

lemma parse_dep_std: "parse_dep dep = Inr m \<Longrightarrow> std m = std_of dep"
  by (auto simp: parse_dep_def split: sum.splits)

lemma parse_dep_url: "parse_dep dep = Inr m \<Longrightarrow> url m = url_of dep"
  by (auto simp: parse_dep_def split: sum.splits)

text \<open>
  Claim C8 (classification), as the code has it. A line is classified as
  standard-library exactly when the text \<open>https://deno.land/std\<close> occurs anywhere in the
  line. The quoted URL is a part of the line, so a URL with that text makes the line
  standard-library; the converse does not hold, since the text may stand outside the
  URL. The record carries this classification and the quoted URL.
\<close>

theorem classification_rule:
  "(std_of dep \<longleftrightarrow> sublist ''https://deno.land/std'' dep) \<and>
   (sublist ''https://deno.land/std'' (url_of dep) \<longrightarrow> std_of dep) \<and>
   (parse_dep dep = Inr m \<longrightarrow> std m = std_of dep \<and> url m = url_of dep)"
proof -
  have a: "std_of dep \<longleftrightarrow> sublist ''https://deno.land/std'' dep"
    by (simp add: std_of_def indexOf_ge0_iff)
  have "sublist (url_of dep) dep"
    unfolding url_of_def by (rule sublist_substring)
  then have b: "sublist ''https://deno.land/std'' (url_of dep) \<longrightarrow> std_of dep"
    using a sublist_order.order_trans by blast
  from a b parse_dep_std parse_dep_url show ?thesis by blast
qed

theorem classification_rule_witness:
  \<open>std_of ''export { fs } from "https://deno.land/std@0.50.0/fs/mod.ts"'' \<and>
   \<not> std_of ''import { Application } from "https://deno.land/x/oak@v5.0.0/mod.ts"''\<close>
proof -
  let ?a = \<open>''export { fs } from "https://deno.land/std@0.50.0/fs/mod.ts"''\<close>
  let ?b = \<open>''import { Application } from "https://deno.land/x/oak@v5.0.0/mod.ts"''\<close>
  have "url_of ?a = ''https://deno.land/std@0.50.0/fs/mod.ts''"
    by code_simp
  moreover have "sublist ''https://deno.land/std'' ''https://deno.land/std@0.50.0/fs/mod.ts''"
    by (simp add: prefix_imp_sublist)
  ultimately have "sublist ''https://deno.land/std'' (url_of ?a)"
    by (simp only:)
  then have 1: "std_of ?a"
    using classification_rule [of ?a] by blast
  have "find_first ''https://deno.land/std'' ?b = None"
    by code_simp
  then have "\<not> sublist ''https://deno.land/std'' ?b"
    using find_first_None_iff by blast
  then have 2: "\<not> std_of ?b"
    using classification_rule [of ?b] by blast
  from 1 2 show ?thesis by (rule conjI)
qed

text \<open>
  Against claim C8 as stated: a candidate line whose quoted URL is a third-party URL is
  classified as standard-library because of a comment after the import.
\<close>

theorem classification_by_text_outside_url:
  \<open>indexOf commented_line marker \<noteq> - 1 \<and>
   parse_dep commented_line =
     Inr \<lparr>std = True, name = ''http'', version = ''0.50.0'',
          url = ''https://deno.land/x/oak@v5.0.0/mod.ts'',
          repo = None, latestRelease = None, updated = None\<rparr> \<and>
   \<not> sublist ''https://deno.land/std'' ''https://deno.land/x/oak@v5.0.0/mod.ts''\<close>
proof -
  have 1: "indexOf commented_line marker \<noteq> - 1"
    unfolding commented_line_def by code_simp
  have 2: "parse_dep commented_line =
     Inr \<lparr>std = True, name = ''http'', version = ''0.50.0'',
          url = ''https://deno.land/x/oak@v5.0.0/mod.ts'',
          repo = None, latestRelease = None, updated = None\<rparr>"
    unfolding commented_line_def by code_simp
  have "find_first ''https://deno.land/std'' ''https://deno.land/x/oak@v5.0.0/mod.ts'' = None"
    by code_simp
  then have 3: "\<not> sublist ''https://deno.land/std'' ''https://deno.land/x/oak@v5.0.0/mod.ts''"
    using find_first_None_iff by blast
  from 1 2 3 show ?thesis by blast
qed

section \<open>Fields of a third-party line\<close>

lemma find_last_bound:
  "find_last n s = Some i \<Longrightarrow> i + length n \<le> length s"
proof (induction s arbitrary: i)
  case Nil
  then show ?case by (simp split: if_splits)
next
  case (Cons c cs)
  show ?case
  proof (cases "find_last n cs")
    case None
    with Cons.prems have p: "prefix n (c # cs)" and "i = 0" by (auto split: if_splits)
    from prefix_length_le [OF p] \<open>i = 0\<close> show ?thesis by simp
  next
    case (Some j)
    with Cons.prems have "i = Suc j" by simp
    with Cons.IH [OF Some] show ?thesis by simp
  qed
qed

lemma find_last_at_last:
  assumes "s = before @ pat @ after"
      and "\<forall>p q. s = p @ pat @ q \<longrightarrow> length p \<le> length before"
  shows "find_last pat s = Some (length before)"
proof -
  from assms(1) have "sublist pat s" by (auto simp: sublist_def)
  then obtain i where i: "find_last pat s = Some i"
    using find_last_None_iff [of pat s] by (cases "find_last pat s") auto
  from find_last_bound [OF i] have "length (take i s) = i" by simp
  with find_last_decomp [OF i] assms(2) have "i \<le> length before" by metis
  moreover from find_last_greatest [OF i assms(1)] have "length before \<le> i" .
  ultimately show ?thesis using i by simp
qed

lemma last_char_occurrence:
  "c \<notin> set after \<Longrightarrow> before @ c # after = p @ c # q \<Longrightarrow> length p \<le> length before"
proof (induction before arbitrary: p)
  case Nil
  then show ?case by (cases p) auto
next
  case (Cons b bs)
  then show ?case by (cases p) auto
qed


lemma substring_middle:
  "substring (a @ b @ c) (int (length a)) (int (length a + length b)) = b"
  by (simp add: substring_def Let_def)

lemma parse_dep_third_party:
  "\<not> std_of dep \<Longrightarrow>
   parse_dep dep =
     Inr \<lparr>std = False,
          name = substring dep (lastIndexOf dep ''/x/'' + 3) (lastIndexOf dep ''@''),
          version = substring dep (lastIndexOf dep ''@'' + 1) (lastIndexOf dep ''/mod.ts''),
          url = url_of dep, repo = None, latestRelease = None, updated = None\<rparr>"
  by (simp add: parse_dep_def version_of_def name_of_def)

lemma lastIndexOf_at_last:
  assumes "s = before @ pat @ after"
      and "\<forall>p q. s = p @ pat @ q \<longrightarrow> length p \<le> length before"
  shows "lastIndexOf s pat = int (length before)"
  using find_last_at_last [OF assms] by (simp add: lastIndexOf_def)

text \<open>
  The fields of a third-party line that has the expected form. For every line
  classified third-party the parser builds a record, and its version and name are parts
  of the line. If the line has the form
  \<open>pre @ ''/x/'' @ n @ ''@'' @ v @ ''/mod.ts'' @ post\<close> where the \<open>@\<close> shown is the last one
  of the line, and the \<open>/mod.ts\<close> and \<open>/x/\<close> shown are the last occurrences of these texts,
  then the version is \<open>v\<close> and the name is \<open>n\<close>.
\<close>

theorem third_party_fields:
  assumes "\<not> std_of dep"
  shows "\<exists>m. parse_dep dep = Inr m \<and> sublist (version m) dep \<and> sublist (name m) dep \<and>
           (\<forall>pre n v post.
              dep = pre @ ''/x/'' @ n @ ''@'' @ v @ ''/mod.ts'' @ post \<and>
              CHR ''@'' \<notin> set (v @ ''/mod.ts'' @ post) \<and>
              (\<forall>p q. dep = p @ ''/mod.ts'' @ q \<longrightarrow>
                 length p \<le> length (pre @ ''/x/'' @ n @ ''@'' @ v)) \<and>
              (\<forall>p q. dep = p @ ''/x/'' @ q \<longrightarrow> length p \<le> length pre)
              \<longrightarrow> version m = v \<and> name m = n)"
proof -
  let ?m = "\<lparr>std = False,
          name = substring dep (lastIndexOf dep ''/x/'' + 3) (lastIndexOf dep ''@''),
          version = substring dep (lastIndexOf dep ''@'' + 1) (lastIndexOf dep ''/mod.ts''),
          url = url_of dep, repo = None, latestRelease = None, updated = None\<rparr>"
  from assms have m: "parse_dep dep = Inr ?m"
    by (rule parse_dep_third_party)
  have sub: "sublist (version ?m) dep" "sublist (name ?m) dep"
    by (simp_all add: sublist_substring)
  have fields: "version ?m = v \<and> name ?m = n"
    if dec: "dep = pre @ ''/x/'' @ n @ ''@'' @ v @ ''/mod.ts'' @ post"
      and at: "CHR ''@'' \<notin> set (v @ ''/mod.ts'' @ post)"
      and suffix: "\<forall>p q. dep = p @ ''/mod.ts'' @ q \<longrightarrow>
                 length p \<le> length (pre @ ''/x/'' @ n @ ''@'' @ v)"
      and registry: "\<forall>p q. dep = p @ ''/x/'' @ q \<longrightarrow> length p \<le> length pre"
    for pre n v post
  proof -
    have dec_at: "dep = (pre @ ''/x/'' @ n) @ ''@'' @ (v @ ''/mod.ts'' @ post)"
      using dec by simp
    have "\<forall>p q. dep = p @ ''@'' @ q \<longrightarrow> length p \<le> length (pre @ ''/x/'' @ n)"
    proof (intro allI impI)
      fix p q
      assume "dep = p @ ''@'' @ q"
      with dec_at have "(pre @ ''/x/'' @ n) @ CHR ''@'' # (v @ ''/mod.ts'' @ post) = p @ CHR ''@'' # q"
        by simp
      with at show "length p \<le> length (pre @ ''/x/'' @ n)"
        by (rule last_char_occurrence)
    qed
    with dec_at have i_at: "lastIndexOf dep ''@'' = int (length (pre @ ''/x/'' @ n))"
      by (rule lastIndexOf_at_last)
    have dec_suffix: "dep = (pre @ ''/x/'' @ n @ ''@'' @ v) @ ''/mod.ts'' @ post"
      using dec by simp
    from dec_suffix suffix
    have i_suffix: "lastIndexOf dep ''/mod.ts'' = int (length (pre @ ''/x/'' @ n @ ''@'' @ v))"
      by (rule lastIndexOf_at_last)
    have dec_registry: "dep = pre @ ''/x/'' @ (n @ ''@'' @ v @ ''/mod.ts'' @ post)"
      using dec by simp
    from dec_registry registry
    have i_registry: "lastIndexOf dep ''/x/'' = int (length pre)"
      by (rule lastIndexOf_at_last)
    have v1: "lastIndexOf dep ''@'' + 1 = int (length (pre @ ''/x/'' @ n @ ''@''))"
      unfolding i_at by simp
    have v2: "lastIndexOf dep ''/mod.ts'' = int (length (pre @ ''/x/'' @ n @ ''@'') + length v)"
      unfolding i_suffix by simp
    have "substring ((pre @ ''/x/'' @ n @ ''@'') @ v @ (''/mod.ts'' @ post))
            (lastIndexOf dep ''@'' + 1) (lastIndexOf dep ''/mod.ts'') = v"
      unfolding v1 v2 by (rule substring_middle)
    then have "substring dep (lastIndexOf dep ''@'' + 1) (lastIndexOf dep ''/mod.ts'') = v"
      using dec by simp
    moreover
    have n1: "lastIndexOf dep ''/x/'' + 3 = int (length (pre @ ''/x/''))"
      unfolding i_registry by simp
    have n2: "lastIndexOf dep ''@'' = int (length (pre @ ''/x/'') + length n)"
      unfolding i_at by simp
    have "substring ((pre @ ''/x/'') @ n @ (''@'' @ v @ ''/mod.ts'' @ post))
            (lastIndexOf dep ''/x/'' + 3) (lastIndexOf dep ''@'') = n"
      unfolding n1 n2 by (rule substring_middle)
    then have "substring dep (lastIndexOf dep ''/x/'' + 3) (lastIndexOf dep ''@'') = n"
      using dec by simp
    ultimately show ?thesis by simp
  qed
  from m sub fields show ?thesis by blast
qed


lemma oak_line_not_std: "\<not> std_of oak_line"
  unfolding oak_line_def by code_simp

lemma oak_line_last_suffix: "find_last ''/mod.ts'' oak_line = Some 59"
  unfolding oak_line_def by code_simp

lemma oak_line_last_registry: "find_last ''/x/'' oak_line = Some 46"
  unfolding oak_line_def by code_simp

theorem third_party_fields_witness:
  "\<exists>m. parse_dep oak_line = Inr m \<and> sublist (version m) oak_line \<and> sublist (name m) oak_line \<and>
        version m = ''v5.0.0'' \<and> name m = ''oak''"
proof -
  let ?pre = \<open>''import { Application } from "https://deno.land''\<close>
  let ?post = \<open>''"''\<close>
  have dec: "oak_line = ?pre @ ''/x/'' @ ''oak'' @ ''@'' @ ''v5.0.0'' @ ''/mod.ts'' @ ?post"
    by (simp add: oak_line_def)
  have at: "CHR ''@'' \<notin> set (''v5.0.0'' @ ''/mod.ts'' @ ?post)"
    by simp
  have len1: "length (?pre @ ''/x/'' @ ''oak'' @ ''@'' @ ''v5.0.0'') = 59"
    by simp
  have suffix: "\<forall>p q. oak_line = p @ ''/mod.ts'' @ q \<longrightarrow>
      length p \<le> length (?pre @ ''/x/'' @ ''oak'' @ ''@'' @ ''v5.0.0'')"
    unfolding len1 using find_last_greatest [OF oak_line_last_suffix] by blast
  have len2: "length ?pre = 46"
    by simp
  have registry: "\<forall>p q. oak_line = p @ ''/x/'' @ q \<longrightarrow> length p \<le> length ?pre"
    unfolding len2 using find_last_greatest [OF oak_line_last_registry] by blast
  from third_party_fields [OF oak_line_not_std]
  obtain m where m: "parse_dep oak_line = Inr m" "sublist (version m) oak_line"
      "sublist (name m) oak_line"
    and fields: "\<And>pre n v post.
      oak_line = pre @ ''/x/'' @ n @ ''@'' @ v @ ''/mod.ts'' @ post \<Longrightarrow>
      CHR ''@'' \<notin> set (v @ ''/mod.ts'' @ post) \<Longrightarrow>
      (\<forall>p q. oak_line = p @ ''/mod.ts'' @ q \<longrightarrow>
         length p \<le> length (pre @ ''/x/'' @ n @ ''@'' @ v)) \<Longrightarrow>
      (\<forall>p q. oak_line = p @ ''/x/'' @ q \<longrightarrow> length p \<le> length pre) \<Longrightarrow>
      version m = v \<and> name m = n"
    by blast
  from fields [OF dec at suffix registry] m show ?thesis by blast
qed

text \<open>
  Claim C9 (fields of a third-party line) does not hold of the parser. \<open>application_line\<close>
  is a candidate line classified third-party whose entry point is not \<open>mod.ts\<close>. The
  search for \<open>/mod.ts\<close> gives \<open>-1\<close>, which is not checked, and \<open>substring\<close> swaps its
  arguments: the version of the record is the text from the start of the line up to the
  last \<open>@\<close>, not a text that follows an \<open>@\<close>. The fragment that \<open>purposes.update\<close> builds
  from this name and version does not occur in the line.
\<close>

theorem third_party_version_without_suffix:
  "indexOf application_line marker \<noteq> - 1 \<and>
   \<not> std_of application_line \<and>
   lastIndexOf application_line ''/mod.ts'' = - 1 \<and>
   parse_dep application_line = Inr application_oak \<and>
   \<not> sublist (''@'' @ version application_oak) application_line \<and>
   \<not> sublist (name application_oak @ ''@'' @ version application_oak) application_line"
proof -
  have 1: "indexOf application_line marker \<noteq> - 1"
    unfolding application_line_def by code_simp
  have 2: "\<not> std_of application_line"
    unfolding application_line_def by code_simp
  have 3: "lastIndexOf application_line ''/mod.ts'' = - 1"
    unfolding application_line_def by code_simp
  have 4: "parse_dep application_line = Inr application_oak"
    unfolding application_line_def application_oak_def by code_simp
  have "find_first (''@'' @ version application_oak) application_line = None"
    unfolding application_line_def application_oak_def by code_simp
  then have 5: "\<not> sublist (''@'' @ version application_oak) application_line"
    using find_first_None_iff by blast
  have "find_first (name application_oak @ ''@'' @ version application_oak)
      application_line = None"
    unfolding application_line_def application_oak_def by code_simp
  then have 6: "\<not> sublist (name application_oak @ ''@'' @ version application_oak)
      application_line"
    using find_first_None_iff by blast
  from 1 2 3 4 5 6 show ?thesis by blast
qed

section \<open>Candidate lines that match no pattern\<close>

lemma candidate_not_empty: "indexOf dep marker \<noteq> - 1 \<Longrightarrow> dep \<noteq> []"
  by (auto simp: indexOf_def marker_def)

lemma collate_third_party:
  assumes "\<forall>dep \<in> set deps. indexOf dep marker \<noteq> - 1 \<longrightarrow> \<not> std_of dep"
  shows "\<exists>ms. collate [] deps acc = Inr (acc @ ms) \<and>
           map url ms = map url_of (filter (\<lambda>dep. indexOf dep marker \<noteq> - 1) deps)"
  using assms
proof (induction deps arbitrary: acc)
  case Nil
  then show ?case by simp
next
  case (Cons dep deps)
  then have rest: "\<forall>dep \<in> set deps. indexOf dep marker \<noteq> - 1 \<longrightarrow> \<not> std_of dep"
    by simp
  show ?case
  proof (cases "indexOf dep marker = - 1")
    case True
    with Cons.IH [OF rest, of acc] show ?thesis by simp
  next
    case False
    with Cons.prems have "\<not> std_of dep" by simp
    from parse_dep_third_party [OF this] obtain m
      where m: "parse_dep dep = Inr m" "url m = url_of dep"
      by simp
    from Cons.IH [OF rest, of "acc @ [m]"] obtain ms
      where ms: "collate [] deps (acc @ [m]) = Inr (acc @ [m] @ ms)"
        "map url ms = map url_of (filter (\<lambda>dep. indexOf dep marker \<noteq> - 1) deps)"
      by auto
    have "collate [] (dep # deps) acc = Inr (acc @ (m # ms))"
      using False m(1) ms(1) by simp
    moreover have "map url (m # ms) =
        map url_of (filter (\<lambda>dep. indexOf dep marker \<noteq> - 1) (dep # deps))"
      using False m(2) ms(2) by simp
    ultimately show ?thesis by blast
  qed
qed

text \<open>
  Third-party lines never make the parser raise, whatever their form. If every line of
  the manifest with the marker is classified third-party, then
  the parser raises no exception, whatever names are asked for and whether or not the
  lines match the third-party pattern; and no such line is skipped: asked for all
  modules, the parser returns one record per line with the marker, in order, each with
  the quoted URL of its line.
\<close>

theorem third_party_lines_never_raise:
  assumes "\<forall>dep \<in> set (split_js depsContent [CHR 0x0A]).
             indexOf dep marker \<noteq> - 1 \<longrightarrow> \<not> std_of dep"
  shows "(\<exists>modules. getModulesFromDepsFile [] depsContent = Inr modules \<and>
            map url modules =
              map url_of (filter (\<lambda>dep. indexOf dep marker \<noteq> - 1)
                            (split_js depsContent [CHR 0x0A]))) \<and>
         (\<exists>modules. getModulesFromDepsFile requestedNames depsContent = Inr modules)"
proof -
  let ?lines = "split_js depsContent [CHR 0x0A]"
  let ?deps = "filter (\<lambda>dep. dep \<noteq> []) ?lines"
  from assms have "\<forall>dep \<in> set ?deps. indexOf dep marker \<noteq> - 1 \<longrightarrow> \<not> std_of dep"
    by simp
  from collate_third_party [OF this, of "[]"] obtain ms
    where ms: "collate [] ?deps [] = Inr ms"
      "map url ms = map url_of (filter (\<lambda>dep. indexOf dep marker \<noteq> - 1) ?deps)"
    by auto
  have "filter (\<lambda>dep. indexOf dep marker \<noteq> - 1) ?deps =
      filter (\<lambda>dep. indexOf dep marker \<noteq> - 1) ?lines"
    using candidate_not_empty by (auto intro: filter_cong)
  with ms have all: "getModulesFromDepsFile [] depsContent = Inr ms"
    "map url ms = map url_of (filter (\<lambda>dep. indexOf dep marker \<noteq> - 1) ?lines)"
    by (simp_all add: getModulesFromDepsFile_def)
  from getModulesFromDepsFile_filter [OF all(1), of requestedNames]
  have "\<exists>modules. getModulesFromDepsFile requestedNames depsContent = Inr modules"
    by blast
  with all show ?thesis by blast
qed

lemma third_party_manifest_lines:
  "\<forall>dep \<in> set (split_js third_party_manifest [CHR 0x0A]).
     indexOf dep marker \<noteq> - 1 \<longrightarrow> \<not> std_of dep"
  unfolding third_party_manifest_def application_line_def unversioned_oak_line_def
  by code_simp

lemma third_party_manifest_urls:
  "map url_of (filter (\<lambda>dep. indexOf dep marker \<noteq> - 1)
     (split_js third_party_manifest [CHR 0x0A])) =
   [''https://deno.land/x/oak@v5.0.0/application.ts'', ''https://deno.land/x/oak/mod.ts'']"
  unfolding third_party_manifest_def application_line_def unversioned_oak_line_def
  by code_simp

theorem third_party_lines_never_raise_witness:
  "(\<exists>modules. getModulesFromDepsFile [] third_party_manifest = Inr modules \<and>
      map url modules =
        [''https://deno.land/x/oak@v5.0.0/application.ts'', ''https://deno.land/x/oak/mod.ts'']) \<and>
   (\<exists>modules. getModulesFromDepsFile [''oak''] third_party_manifest = Inr modules)"
  using third_party_lines_never_raise [OF third_party_manifest_lines, of "[''oak'']"]
  unfolding third_party_manifest_urls .

text \<open>
  A candidate line without any \<open>@\<close>, which therefore matches neither pattern, is not
  skipped: a record is built from it.
\<close>

theorem malformed_line_is_not_skipped:
  \<open>indexOf unversioned_oak_line marker \<noteq> - 1 \<and>
   CHR ''@'' \<notin> set unversioned_oak_line \<and>
   getModulesFromDepsFile [] unversioned_oak_line =
     Inr [\<lparr>std = False,
           name = ''import { Application } from "https://deno.land/x/'',
           version = ''import { Application } from "https://deno.land/x/oak'',
           url = ''https://deno.land/x/oak/mod.ts'',
           repo = None, latestRelease = None, updated = None\<rparr>]\<close>
proof -
  have 1: "indexOf unversioned_oak_line marker \<noteq> - 1"
    unfolding unversioned_oak_line_def by code_simp
  have 2: "CHR ''@'' \<notin> set unversioned_oak_line"
    unfolding unversioned_oak_line_def by simp
  have 3: \<open>getModulesFromDepsFile [] unversioned_oak_line =
     Inr [\<lparr>std = False,
           name = ''import { Application } from "https://deno.land/x/'',
           version = ''import { Application } from "https://deno.land/x/oak'',
           url = ''https://deno.land/x/oak/mod.ts'',
           repo = None, latestRelease = None, updated = None\<rparr>]\<close>
    unfolding unversioned_oak_line_def by code_simp
  from 1 2 3 show ?thesis by blast
qed

text \<open>
  Claim C3 (no exception on a candidate line that matches no pattern) does not hold of
  the parser. \<open>unversioned_std_line\<close> has the marker and is classified standard-library,
  but lacks the text \<open>/std@\<close>: \<open>split(...)[1]\<close> is \<open>undefined\<close> and the call of \<open>split\<close> on it
  raises. The line is not skipped; the exception ends the parser, with or without a
  name filter, and the records of all other lines are lost.
\<close>

theorem unversioned_std_line_raises:
  "indexOf unversioned_std_line marker \<noteq> - 1 \<and>
   std_of unversioned_std_line \<and>
   \<not> sublist ''/std@'' unversioned_std_line \<and>
   parse_dep unversioned_std_line = Inl TypeError \<and>
   getModulesFromDepsFile [] unversioned_std_line = Inl TypeError \<and>
   getModulesFromDepsFile [] (example_manifest @ unversioned_std_line) = Inl TypeError \<and>
   getModulesFromDepsFile [''oak''] (example_manifest @ unversioned_std_line) = Inl TypeError"
proof -
  have 1: "indexOf unversioned_std_line marker \<noteq> - 1"
    unfolding unversioned_std_line_def by code_simp
  have 2: "std_of unversioned_std_line"
    unfolding unversioned_std_line_def by code_simp
  have "find_first ''/std@'' unversioned_std_line = None"
    unfolding unversioned_std_line_def by code_simp
  then have 3: "\<not> sublist ''/std@'' unversioned_std_line"
    using find_first_None_iff by blast
  have 4: "parse_dep unversioned_std_line = Inl TypeError"
    unfolding unversioned_std_line_def by code_simp
  have 5: "getModulesFromDepsFile [] unversioned_std_line = Inl TypeError"
    unfolding unversioned_std_line_def by code_simp
  have 6: "getModulesFromDepsFile [] (example_manifest @ unversioned_std_line) = Inl TypeError"
    unfolding unversioned_std_line_def example_manifest_def by code_simp
  have 7: "getModulesFromDepsFile [''oak''] (example_manifest @ unversioned_std_line) =
      Inl TypeError"
    unfolding unversioned_std_line_def example_manifest_def by code_simp
  from 1 2 3 4 5 6 7 show ?thesis by blast
qed

section \<open>A fragment that occurs in the line of another module\<close>

text \<open>
  Claim C1 (locality of the rewriter) does not hold of \<open>purposes.update\<close>. Asked to
  update \<open>fs\<close> in \<open>collision_manifest\<close>, the parser returns the record of \<open>fs\<close> alone; its
  fragment \<open>fs@1.0.0\<close> occurs first inside \<open>myfs@1.0.0\<close>, so the rewrite changes the line
  of \<open>myfs\<close> and leaves the line of \<open>fs\<close> as it was. \<open>UpdateSubcommand.handle\<close>, which
  replaces the whole import URL, changes the line of \<open>fs\<close> only.
\<close>

theorem fragment_matches_other_module:
  "getModulesFromDepsFile [''fs''] collision_manifest = Inr [fs_module] \<and>
   written (update ''0.60.0'' collision_manifest [fs_module\<lparr>latestRelease := Some ''2.0.0''\<rparr>])
     = collision_once \<and>
   manifest (handle [''update'', ''fs''] [myfs_data, fs_data] collision_manifest)
     = collision_expected"
proof -
  have 1: "getModulesFromDepsFile [''fs''] collision_manifest = Inr [fs_module]"
    unfolding collision_manifest_def fs_module_def by code_simp
  have 2: "written (update ''0.60.0'' collision_manifest
      [fs_module\<lparr>latestRelease := Some ''2.0.0''\<rparr>]) = collision_once"
    unfolding collision_manifest_def fs_module_def collision_once_def by code_simp
  have 3: "manifest (handle [''update'', ''fs''] [myfs_data, fs_data] collision_manifest)
     = collision_expected"
    unfolding collision_manifest_def myfs_data_def fs_data_def collision_expected_def
    by code_simp
  from 1 2 3 show ?thesis by blast
qed

text \<open>
  Claim C2 (idempotence of update) does not hold either, for the same reason: with the
  same resolver, the second run on the output of the first finds the fragment of \<open>fs\<close>
  on the line of \<open>fs\<close> and replaces it there, so its output differs from its input.
\<close>

theorem second_update_changes_text:
  "map_sum id written
     (update_command fs_database fs_fetch_url ''0.60.0'' [''fs''] collision_manifest)
     = Inr collision_once \<and>
   map_sum id written
     (update_command fs_database fs_fetch_url ''0.60.0'' [''fs''] collision_once)
     = Inr collision_twice \<and>
   collision_twice \<noteq> collision_once"
proof -
  have 1: "map_sum id written
     (update_command fs_database fs_fetch_url ''0.60.0'' [''fs''] collision_manifest)
     = Inr collision_once"
    unfolding collision_manifest_def collision_once_def fs_database_def fs_fetch_url_def
    by code_simp
  have 2: "map_sum id written
     (update_command fs_database fs_fetch_url ''0.60.0'' [''fs''] collision_once)
     = Inr collision_twice"
    unfolding collision_twice_def collision_once_def fs_database_def fs_fetch_url_def
    by code_simp
  have 3: "collision_twice \<noteq> collision_once"
    unfolding collision_twice_def collision_once_def by simp
  from 1 2 3 show ?thesis by blast
qed

end
